theory Spec2Isabelle
  imports Complex_Main "HOL-Library.Log_Nat"
begin

section \<open>Jukebox playback over an mpv subprocess\<close>

text \<open>
  The development follows \<^verbatim>\<open>core/playback/device_speaker.go\<close> (the speaker playback
  device and its transport commands) and the \<^verbatim>\<open>mpv\<close> package (binary lookup, process
  start, wait for the control socket). Effects are explicit: every request sent over
  the IPC connection, every sleep and every catalog lookup is appended to a log in the
  state, and the answers of the player, of the catalog and of the operating system are
  parameters of the functions.
\<close>

subsection \<open>Errors and values\<close>

text \<open>
  A Go \<^verbatim>\<open>error\<close>. \<open>ErrorString s\<close> is an error whose \<^verbatim>\<open>Error()\<close> text is \<open>s\<close>
  (\<^verbatim>\<open>errors.New(s)\<close>, and the errors of the IPC library and of the catalog);
  \<open>ErrDot\<close> is an error for which \<^verbatim>\<open>errors.Is(err, exec.ErrDot)\<close> holds;
  \<open>StartingCmd e\<close> is \<^verbatim>\<open>fmt.Errorf("starting cmd: %w", e)\<close>;
  \<open>TimeoutReached d\<close> is \<^verbatim>\<open>fmt.Errorf("timeout reached: %s", d)\<close> for the duration \<open>d\<close>
  in nanoseconds. \<^verbatim>\<open>nil\<close> is \<open>None\<close> of \<open>error option\<close>.
\<close>

datatype error =
    ErrorString string
  | ErrDot
  | StartingCmd error
  | TimeoutReached nat

text \<open>
  What \<^verbatim>\<open>MpvConn.Get\<close> returns as \<^verbatim>\<open>interface{}\<close>. A finite \<^verbatim>\<open>float64\<close> is the
  rational number it denotes.
\<close>

datatype mpv_value = VBool bool | VFloat rat | VString string | VNil

text \<open>
  The conversion \<^verbatim>\<open>int(x)\<close> of a floating-point \<open>x\<close>: the fraction is discarded
  (truncation towards zero).
\<close>

definition go_int :: "rat \<Rightarrow> int" where
  "go_int x = (if 0 \<le> x then \<lfloor>x\<rfloor> else \<lceil>x\<rceil>)"

subsection \<open>The IPC connection\<close>

text \<open>
  The requests the device sends: \<^verbatim>\<open>Get(property)\<close>, \<^verbatim>\<open>Set(property, value)\<close> and
  \<^verbatim>\<open>Call(args...)\<close>. The player is a function from the requests sent before and the
  present request to its answer, so it may answer the same request differently each
  time. The transport commands below are those of a device whose connection is open.
\<close>

datatype ipc_arg = AString string | AInt int | ABool bool

datatype ipc_req = MpvGet string | MpvSet string ipc_arg | MpvCall "ipc_arg list"

type_synonym player = "ipc_req list \<Rightarrow> ipc_req \<Rightarrow> error + mpv_value"

subsection \<open>The queue\<close>

text \<open>
  Modelled from the spec: the type \<^verbatim>\<open>model.MediaFile\<close> is not among the sources. A
  track reference is an opaque id and a resolved path; the device reads \<^verbatim>\<open>Path\<close>.
\<close>

record MediaFile =
  ID :: string
  Path :: string

text \<open>
  Modelled from the spec: the file of the type \<^verbatim>\<open>Queue\<close> is not among the sources.
  A queue is an ordered sequence of track references and an index cursor, which is
  \<open>-1\<close> on an empty queue.
\<close>

record Queue =
  Items :: "MediaFile list"
  Index :: int

text \<open>Modelled from the spec: \<^verbatim>\<open>NewQueue\<close>, the empty queue a device is created with.\<close>

definition NewQueue :: Queue where
  "NewQueue = \<lparr>Items = [], Index = -1\<rparr>"

text \<open>Modelled from the spec: \<^verbatim>\<open>Queue.Get\<close>, the tracks in their order.\<close>

definition Queue_Get :: "Queue \<Rightarrow> MediaFile list" where
  "Queue_Get q = Items q"

text \<open>Modelled from the spec: \<^verbatim>\<open>Queue.Size\<close>, the number of tracks.\<close>

definition Size :: "Queue \<Rightarrow> int" where
  "Size q = int (length (Items q))"

text \<open>Modelled from the spec: \<^verbatim>\<open>Queue.IsEmpty\<close>.\<close>

definition IsEmpty :: "Queue \<Rightarrow> bool" where
  "IsEmpty q = (Items q = [])"

text \<open>
  Modelled from the spec: \<^verbatim>\<open>Queue.Add\<close> appends the tracks in order. The cursor of an
  empty queue is \<open>-1\<close> and that of a non-empty queue is inside it, so the first tracks
  added move the cursor from \<open>-1\<close> to the start.
\<close>

definition Queue_Add :: "MediaFile list \<Rightarrow> Queue \<Rightarrow> Queue" where
  "Queue_Add items q =
     q\<lparr>Items := Items q @ items,
       Index := (if Index q = -1 \<and> Items q @ items \<noteq> [] then 0 else Index q)\<rparr>"

text \<open>Modelled from the spec: \<^verbatim>\<open>Queue.Clear\<close> empties the queue.\<close>

definition Queue_Clear :: "Queue \<Rightarrow> Queue" where
  "Queue_Clear q = q\<lparr>Items := [], Index := -1\<rparr>"

text \<open>
  Modelled from the spec: \<^verbatim>\<open>Queue.Remove\<close> takes the element at \<open>i\<close> out, for
  \<open>i\<close> in \<open>[0, len)\<close>, and keeps the others in their order; an index outside that
  range is rejected with an index-range error, which is \<open>None\<close> here. The spec does
  not say where the cursor goes after a removal: \<open>cursor\<close> is that choice, the new
  index from the removed position and the queue before.
\<close>

definition Queue_Remove ::
  "(int \<Rightarrow> Queue \<Rightarrow> int) \<Rightarrow> int \<Rightarrow> Queue \<Rightarrow> Queue option" where
  "Queue_Remove cursor i q =
     (if 0 \<le> i \<and> i < Size q
      then Some (q\<lparr>Items := take (nat i) (Items q) @ drop (nat i + 1) (Items q),
                   Index := cursor i q\<rparr>)
      else None)"

text \<open>
  Modelled from the spec: \<^verbatim>\<open>Queue.SetIndex\<close> sets the cursor to \<open>i\<close>, for \<open>i\<close> in
  \<open>[0, len)\<close>. The spec does not say what an index outside the queue does:
  \<open>outside\<close> is that choice, the new index from the index asked for and the queue.
\<close>

definition SetIndex :: "(int \<Rightarrow> Queue \<Rightarrow> int) \<Rightarrow> int \<Rightarrow> Queue \<Rightarrow> Queue" where
  "SetIndex outside i q =
     (if 0 \<le> i \<and> i < Size q then q\<lparr>Index := i\<rparr> else q\<lparr>Index := outside i q\<rparr>)"

text \<open>
  Modelled from the spec: \<^verbatim>\<open>Queue.Current\<close> is the track under the cursor, or none
  (\<^verbatim>\<open>nil\<close>) when the cursor is not on a track.
\<close>

definition Current :: "Queue \<Rightarrow> MediaFile option" where
  "Current q =
     (if 0 \<le> Index q \<and> Index q < Size q then Some (Items q ! nat (Index q)) else None)"

subsection \<open>The device\<close>

text \<open>
  \<^verbatim>\<open>DeviceStatus\<close> of \<^verbatim>\<open>device.go\<close>. Its fields \<^verbatim>\<open>Gain\<close> and \<^verbatim>\<open>Position\<close> are
  \<open>StatusGain\<close> and \<open>StatusPosition\<close> here, apart from the device's field and method
  of the same names. A \<^verbatim>\<open>float32\<close> gain is the rational number it denotes.
\<close>

record DeviceStatus =
  CurrentIndex :: int
  Playing :: bool
  StatusGain :: rat
  StatusPosition :: int

text \<open>\<^verbatim>\<open>DeviceStatus{}\<close>, the zero value.\<close>

definition DeviceStatus_zero :: DeviceStatus where
  "DeviceStatus_zero = \<lparr>CurrentIndex = 0, Playing = False, StatusGain = 0, StatusPosition = 0\<rparr>"

text \<open>
  \<^verbatim>\<open>SpeakerPlaybackDevice\<close>: the fields the commands read and write. \<open>MpvConn\<close> is the
  socket name of the connection, or \<open>None\<close> for \<^verbatim>\<open>nil\<close>.
\<close>

record SpeakerPlaybackDevice =
  Name :: string
  DeviceName :: string
  MpvConn :: "string option"
  PlaybackQueue :: Queue
  Gain :: rat

text \<open>
  The state the commands run in: the device, and the logs of what has been done so
  far, oldest first: the IPC requests sent, the sleeps (in milliseconds) and the ids
  looked up in the catalog.
\<close>

record state =
  dev :: SpeakerPlaybackDevice
  sent :: "ipc_req list"
  slept :: "nat list"
  lookups :: "string list"

text \<open>One request over the connection: the player's answer, and the request logged.\<close>

definition request :: "player \<Rightarrow> ipc_req \<Rightarrow> state \<Rightarrow> (error + mpv_value) \<times> state" where
  "request mpv r s = (mpv (sent s) r, s\<lparr>sent := sent s @ [r]\<rparr>)"

definition Sleep :: "nat \<Rightarrow> state \<Rightarrow> state" where
  "Sleep ms s = s\<lparr>slept := slept s @ [ms]\<rparr>"

text \<open>
  \<^verbatim>\<open>Position\<close>: the loop, from the value \<open>retryCount\<close> has at the top of an iteration.
\<close>

function Position_loop :: "player \<Rightarrow> nat \<Rightarrow> state \<Rightarrow> int \<times> state" where
  "Position_loop mpv retryCount s =
     (case mpv (sent s) (MpvGet ''time-pos'') of
        Inl err \<Rightarrow>
          if err = ErrorString ''mpv error: property unavailable''
          then if retryCount + 1 > 5
               then (0, s\<lparr>sent := sent s @ [MpvGet ''time-pos'']\<rparr>)
               else Position_loop mpv (retryCount + 1)
                      (Sleep (retryCount + 1) (s\<lparr>sent := sent s @ [MpvGet ''time-pos'']\<rparr>))
          else (0, s\<lparr>sent := sent s @ [MpvGet ''time-pos'']\<rparr>)
      | Inr position \<Rightarrow>
          (case position of
             VFloat pos \<Rightarrow> (go_int pos, s\<lparr>sent := sent s @ [MpvGet ''time-pos'']\<rparr>)
           | _ \<Rightarrow> (0, s\<lparr>sent := sent s @ [MpvGet ''time-pos'']\<rparr>)))"
  by pat_completeness auto
termination
  by (relation "measure (\<lambda>(mpv, retryCount, s). 6 - retryCount)") auto

definition Position :: "player \<Rightarrow> state \<Rightarrow> int \<times> state" where
  "Position mpv s = Position_loop mpv 0 s"

definition isPlaying :: "player \<Rightarrow> state \<Rightarrow> bool \<times> state" where
  "isPlaying mpv s =
     (case request mpv (MpvGet ''pause'') s of
        (Inl err, s1) \<Rightarrow> (False, s1)
      | (Inr pausing, s1) \<Rightarrow>
          (case pausing of VBool pause \<Rightarrow> (\<not> pause, s1) | _ \<Rightarrow> (False, s1)))"

text \<open>
  \<^verbatim>\<open>getStatus\<close>: the fields of the literal are evaluated in the order written, so the
  pause query goes out before the position query.
\<close>

definition getStatus :: "player \<Rightarrow> state \<Rightarrow> DeviceStatus \<times> state" where
  "getStatus mpv s =
     (case isPlaying mpv s of
        (playing, s1) \<Rightarrow>
          (case Position mpv s1 of
             (position, s2) \<Rightarrow>
               (\<lparr>CurrentIndex = Index (PlaybackQueue (dev s)), Playing = playing,
                 StatusGain = Gain (dev s), StatusPosition = position\<rparr>, s2)))"

definition set_queue :: "Queue \<Rightarrow> state \<Rightarrow> state" where
  "set_queue q s = s\<lparr>dev := (dev s)\<lparr>PlaybackQueue := q\<rparr>\<rparr>"

definition switchActiveTrackByIndex ::
  "(int \<Rightarrow> Queue \<Rightarrow> int) \<Rightarrow> player \<Rightarrow> int \<Rightarrow> int \<Rightarrow> state \<Rightarrow> error option \<times> state" where
  "switchActiveTrackByIndex outside mpv index offset s =
     (let s1 = set_queue (SetIndex outside index (PlaybackQueue (dev s))) s in
      case Current (PlaybackQueue (dev s1)) of
        None \<Rightarrow> (Some (ErrorString ''could not get current track''), s1)
      | Some currentTrack \<Rightarrow>
          (None, snd (request mpv (MpvCall [AString ''loadfile'', AString (Path currentTrack),
                                             AString ''replace'', AInt 0, AString ''start=10'']) s1)))"

definition Skip ::
  "(int \<Rightarrow> Queue \<Rightarrow> int) \<Rightarrow> player \<Rightarrow> int \<Rightarrow> int \<Rightarrow> state
     \<Rightarrow> (DeviceStatus \<times> error option) \<times> state" where
  "Skip outside mpv index offset s =
     (let s1 = (if index \<noteq> Index (PlaybackQueue (dev s))
                then snd (switchActiveTrackByIndex outside mpv index offset s)
                else snd (request mpv (MpvCall [AString ''seek'', AInt offset]) s))
      in case getStatus mpv s1 of (status, s2) \<Rightarrow> ((status, None), s2))"

text \<open>
  \<^verbatim>\<open>Start\<close>. The goroutine it launches once waits on two channels and changes neither
  the queue nor the connection; it is left out.
\<close>

definition Start ::
  "(int \<Rightarrow> Queue \<Rightarrow> int) \<Rightarrow> player \<Rightarrow> state \<Rightarrow> (DeviceStatus \<times> error option) \<times> state" where
  "Start outside mpv s =
     (if \<not> IsEmpty (PlaybackQueue (dev s))
      then (case switchActiveTrackByIndex outside mpv (Index (PlaybackQueue (dev s))) 0 s of
              (Some err, s1) \<Rightarrow>
                (case getStatus mpv s1 of (status, s2) \<Rightarrow> ((status, Some err), s2))
            | (None, s1) \<Rightarrow>
                (case getStatus mpv (snd (request mpv (MpvSet ''pause'' (ABool False)) s1)) of
                   (status, s2) \<Rightarrow> ((status, None), s2)))
      else (case getStatus mpv s of (status, s2) \<Rightarrow> ((status, None), s2)))"

definition Stop :: "player \<Rightarrow> state \<Rightarrow> (DeviceStatus \<times> error option) \<times> state" where
  "Stop mpv s =
     (case getStatus mpv (snd (request mpv (MpvSet ''pause'' (ABool True)) s)) of
        (status, s2) \<Rightarrow> ((status, None), s2))"

text \<open>
  The catalog, \<^verbatim>\<open>ParentPlaybackServer.GetMediaFile\<close>: a track for an id, or an error.
\<close>

type_synonym catalog = "string \<Rightarrow> error + MediaFile"

text \<open>
  The loop of \<^verbatim>\<open>Add\<close> over the ids, with the tracks collected so far in \<open>items\<close>: the
  first id that does not resolve ends it with that error.
\<close>

fun Add_loop ::
  "catalog \<Rightarrow> string list \<Rightarrow> MediaFile list \<Rightarrow> state \<Rightarrow> (error + MediaFile list) \<times> state" where
  "Add_loop srv [] items s = (Inr items, s)"
| "Add_loop srv (i # ids) items s =
     (case srv i of
        Inl err \<Rightarrow> (Inl err, s\<lparr>lookups := lookups s @ [i]\<rparr>)
      | Inr mf \<Rightarrow> Add_loop srv ids (items @ [mf]) (s\<lparr>lookups := lookups s @ [i]\<rparr>))"

definition Add ::
  "catalog \<Rightarrow> player \<Rightarrow> string list \<Rightarrow> state \<Rightarrow> (DeviceStatus \<times> error option) \<times> state" where
  "Add srv mpv ids s =
     (if length ids < 1
      then (case getStatus mpv s of (status, s2) \<Rightarrow> ((status, None), s2))
      else (case Add_loop srv ids [] s of
              (Inl err, s1) \<Rightarrow> ((DeviceStatus_zero, Some err), s1)
            | (Inr items, s1) \<Rightarrow>
                (case getStatus mpv (set_queue (Queue_Add items (PlaybackQueue (dev s1))) s1) of
                   (status, s2) \<Rightarrow> ((status, None), s2))))"

definition Clear :: "player \<Rightarrow> state \<Rightarrow> (DeviceStatus \<times> error option) \<times> state" where
  "Clear mpv s =
     (let s1 = snd (Stop mpv s);
          s2 = set_queue (Queue_Clear (PlaybackQueue (dev s1))) s1
      in case getStatus mpv s2 of (status, s3) \<Rightarrow> ((status, None), s3))"

definition Set ::
  "catalog \<Rightarrow> player \<Rightarrow> string list \<Rightarrow> state \<Rightarrow> (DeviceStatus \<times> error option) \<times> state" where
  "Set srv mpv ids s =
     (case Clear mpv s of
        ((_, Some err), s1) \<Rightarrow>
          (case getStatus mpv s1 of (status, s2) \<Rightarrow> ((status, Some err), s2))
      | ((_, None), s1) \<Rightarrow> Add srv mpv ids s1)"

text \<open>
  \<^verbatim>\<open>Remove\<close>. \<open>cursor\<close> is the queue's choice of the index after a removal (see
  \<open>Queue_Remove\<close>). The call \<^verbatim>\<open>pd.PlaybackQueue.Remove(index)\<close> is a statement: what
  the queue returns is not looked at.
\<close>

definition Remove ::
  "(int \<Rightarrow> Queue \<Rightarrow> int) \<Rightarrow> player \<Rightarrow> int \<Rightarrow> state
     \<Rightarrow> (DeviceStatus \<times> error option) \<times> state" where
  "Remove cursor mpv index s =
     (case isPlaying mpv s of
        (playing, s1) \<Rightarrow>
          (case (if playing \<and> Index (PlaybackQueue (dev s1)) = index
                 then (case Stop mpv s1 of ((_, err), s2) \<Rightarrow> (err, s2))
                 else (None, s1)) of
             (Some err, s2) \<Rightarrow>
               (case getStatus mpv s2 of (status, s3) \<Rightarrow> ((status, Some err), s3))
           | (None, s2) \<Rightarrow>
               (let s3 = (if index > -1 \<and> index < Size (PlaybackQueue (dev s2))
                          then (case Queue_Remove cursor index (PlaybackQueue (dev s2)) of
                                  None \<Rightarrow> s2
                                | Some q \<Rightarrow> set_queue q s2)
                          else s2)
                in case getStatus mpv s3 of (status, s4) \<Rightarrow> ((status, None), s4))))"

subsection \<open>The gain\<close>

text \<open>
  \<^verbatim>\<open>float32\<close> arithmetic. A finite \<^verbatim>\<open>float32\<close> is the rational number it denotes, and
  the product of two of them is the exact product rounded to the nearest
  \<^verbatim>\<open>float32\<close>, ties to the even significand (24 bits, least exponent \<open>-126\<close>).
  \<open>ilog2 x\<close> is the exponent of a positive \<open>x\<close>, the greatest \<open>e\<close> with
  \<open>2 ^ e \<le> x\<close>. Overflow to infinity is not represented.
\<close>

definition ilog2 :: "rat \<Rightarrow> int" where
  "ilog2 x =
     (if 1 \<le> x then int (floorlog 2 (nat \<lfloor>x\<rfloor>)) - 1
      else - int (floorlog 2 (nat (\<lceil>1 / x\<rceil> - 1))))"

definition round_even :: "rat \<Rightarrow> int" where
  "round_even y =
     (let f = \<lfloor>y\<rfloor>; d = y - of_int f
      in if d < 1 / 2 then f else if 1 / 2 < d then f + 1 else if even f then f else f + 1)"

definition f32 :: "rat \<Rightarrow> rat" where
  "f32 x =
     (if x = 0 then 0
      else (let ulp = 2 powi (max (ilog2 \<bar>x\<bar>) (- 126) - 23)
            in of_int (round_even (x / ulp)) * ulp))"

definition SetGain :: "player \<Rightarrow> rat \<Rightarrow> state \<Rightarrow> (DeviceStatus \<times> error option) \<times> state" where
  "SetGain mpv gain s =
     (let vol = go_int (f32 (gain * 100));
          s1 = snd (request mpv (MpvSet ''volume'' (AInt vol)) s);
          s2 = s1\<lparr>dev := (dev s1)\<lparr>Gain := gain\<rparr>\<rparr>
      in case getStatus mpv s2 of (status, s3) \<Rightarrow> ((status, None), s3))"

subsection \<open>Starting the player\<close>

text \<open>
  The package variables \<^verbatim>\<open>mpvOnce\<close>, \<^verbatim>\<open>mpvPath\<close> and \<^verbatim>\<open>mpvErr\<close>: \<open>mpvOnce\<close> holds
  once the function given to \<^verbatim>\<open>mpvOnce.Do\<close> has run. \<open>looked\<close> logs the names
  passed to \<^verbatim>\<open>exec.LookPath\<close>, oldest first.
\<close>

record mpv_vars =
  mpvOnce :: bool
  mpvPath :: string
  mpvErr :: "error option"
  looked :: "string list"

definition mpv_vars_init :: mpv_vars where
  "mpv_vars_init = \<lparr>mpvOnce = False, mpvPath = [], mpvErr = None, looked = []\<rparr>"

text \<open>
  What the package reads from outside at one moment: the configuration
  (\<^verbatim>\<open>conf.Server.MPVPath\<close>, \<^verbatim>\<open>conf.Server.MPVCmdTemplate\<close>), \<^verbatim>\<open>exec.LookPath\<close>,
  \<^verbatim>\<open>socketName\<close> (defined in another file of the package), whether \<^verbatim>\<open>cmd.Start()\<close>
  fails for an argument vector, whether the \<open>k\<close>-th \<^verbatim>\<open>os.Stat\<close> of a path finds a
  file that is not a directory, the \<open>k\<close>-th reading of the clock in nanoseconds, and
  whether opening a connection on a socket fails.
\<close>

record os =
  MPVPath :: string
  MPVCmdTemplate :: string
  LookPath :: "string \<Rightarrow> string \<times> error option"
  socketName :: "string \<Rightarrow> string \<Rightarrow> string"
  cmdStart :: "string list \<Rightarrow> error option"
  Stat :: "string \<Rightarrow> nat \<Rightarrow> bool"
  Now :: "nat \<Rightarrow> nat"
  connOpen :: "string \<Rightarrow> error option"

text \<open>\<^verbatim>\<open>errors.Is(err, exec.ErrDot)\<close>: \<^verbatim>\<open>%w\<close> wraps, and \<^verbatim>\<open>errors.Is\<close> unwraps.\<close>

fun is_ErrDot :: "error \<Rightarrow> bool" where
  "is_ErrDot ErrDot = True"
| "is_ErrDot (StartingCmd e) = is_ErrDot e"
| "is_ErrDot _ = False"

text \<open>The function \<^verbatim>\<open>mpvCommand\<close> gives to \<^verbatim>\<open>mpvOnce.Do\<close>.\<close>

definition mpvLookup :: "os \<Rightarrow> mpv_vars \<Rightarrow> mpv_vars" where
  "mpvLookup env g =
     (if MPVPath env \<noteq> []
      then (case LookPath env (MPVPath env) of
              (p, e) \<Rightarrow> g\<lparr>mpvPath := p, mpvErr := e, looked := looked g @ [MPVPath env]\<rparr>)
      else (case LookPath env ''mpv'' of
              (p, e) \<Rightarrow>
                if (case e of None \<Rightarrow> False | Some err \<Rightarrow> is_ErrDot err)
                then (case LookPath env ''./mpv'' of
                        (p', e') \<Rightarrow>
                          g\<lparr>mpvPath := p', mpvErr := e', looked := looked g @ [''mpv'', ''./mpv'']\<rparr>)
                else g\<lparr>mpvPath := p, mpvErr := e, looked := looked g @ [''mpv'']\<rparr>))"

definition mpvCommand :: "os \<Rightarrow> mpv_vars \<Rightarrow> (string \<times> error option) \<times> mpv_vars" where
  "mpvCommand env g =
     (let g' = (if mpvOnce g then g else (mpvLookup env g)\<lparr>mpvOnce := True\<rparr>)
      in ((mpvPath g', mpvErr g'), g'))"

text \<open>
  \<^verbatim>\<open>strings.Split\<close> with a separator of one character, \<^verbatim>\<open>strings.Join\<close>, and
  \<^verbatim>\<open>strings.ReplaceAll\<close>, which replaces the occurrences of the pattern from the
  left, none overlapping another, and puts the replacement around every character
  when the pattern is empty. A character is a byte.
\<close>

fun Split :: "string \<Rightarrow> char \<Rightarrow> string list" where
  "Split [] sep = [[]]"
| "Split (c # cs) sep =
     (if c = sep then [] # Split cs sep
      else (case Split cs sep of [] \<Rightarrow> [[c]] | x # xs \<Rightarrow> (c # x) # xs))"

fun Join :: "string list \<Rightarrow> string \<Rightarrow> string" where
  "Join [] sep = []"
| "Join [x] sep = x"
| "Join (x # y # ys) sep = x @ sep @ Join (y # ys) sep"

function ReplaceAll :: "string \<Rightarrow> string \<Rightarrow> string \<Rightarrow> string" where
  "ReplaceAll s old new =
     (if old = [] then new @ concat (map (\<lambda>c. c # new) s)
      else if s = [] then []
      else if take (length old) s = old then new @ ReplaceAll (drop (length old) s) old new
      else hd s # ReplaceAll (tl s) old new)"
  by pat_completeness auto
termination
  by (relation "measure (\<lambda>(s, old, new). length s)") (auto simp: neq_Nil_conv)

definition fixCmd :: "os \<Rightarrow> string \<Rightarrow> mpv_vars \<Rightarrow> string \<times> mpv_vars" where
  "fixCmd env cmd g =
     (case mpvCommand env g of
        ((cmdPath, _), g1) \<Rightarrow>
          (Join (map (\<lambda>s. if s = ''mpv'' \<or> s = ''mpv.exe'' then cmdPath else s)
                     (Split cmd CHR '' '')) '' '', g1))"

definition createMPVCommand ::
  "os \<Rightarrow> string \<Rightarrow> string \<Rightarrow> mpv_vars \<Rightarrow> string list \<times> mpv_vars" where
  "createMPVCommand env deviceName sock g =
     (case fixCmd env (MPVCmdTemplate env) g of
        (cmd, g1) \<Rightarrow>
          (map (\<lambda>s. ReplaceAll (ReplaceAll s ''%d'' deviceName) ''%s'' sock)
               (Split cmd CHR '' '') @ [''--idle''], g1))"

text \<open>
  \<^verbatim>\<open>start\<close>: the executor is its argument vector. The goroutine that waits for the
  process to exit is left out.
\<close>

definition start :: "os \<Rightarrow> string list \<Rightarrow> error + string list" where
  "start env args =
     (case cmdStart env args of
        Some err \<Rightarrow> Inl (StartingCmd err)
      | None \<Rightarrow> Inr args)"

text \<open>
  The loop of \<^verbatim>\<open>waitForSocket\<close>, from the value \<open>retries\<close> has at the top of an
  iteration; \<open>end\<close> is the deadline. Iteration \<open>k\<close> makes the \<open>k\<close>-th poll and then
  reads the clock the \<open>(k + 1)\<close>-th time (the reading \<open>0\<close> is \<^verbatim>\<open>start\<close>).
  \<^verbatim>\<open>time.Sleep(pause)\<close> acts on the clock only, whose readings are given. The loop
  has no bound of its own: \<open>None\<close> is a loop that never returns.
\<close>

partial_function (option) waitForSocket_loop ::
  "os \<Rightarrow> string \<Rightarrow> nat \<Rightarrow> nat \<Rightarrow> nat \<Rightarrow> error option option" where
  "waitForSocket_loop env path end timeout retries =
     (if Stat env path retries then Some None
      else if end < Now env (retries + 1) then Some (Some (TimeoutReached timeout))
      else waitForSocket_loop env path end timeout (retries + 1))"

declare waitForSocket_loop.simps [code]

definition waitForSocket :: "os \<Rightarrow> string \<Rightarrow> nat \<Rightarrow> nat \<Rightarrow> error option option" where
  "waitForSocket env path timeout pause =
     waitForSocket_loop env path (Now env 0 + timeout) timeout 0"

definition Second :: nat where
  "Second = 1000000000"

definition Millisecond :: nat where
  "Millisecond = 1000000"

text \<open>
  \<^verbatim>\<open>OpenMpvAndConnection\<close>: the connection (the socket name, \<open>None\<close> for \<^verbatim>\<open>nil\<close>) and
  the error, with the package variables after the call; \<open>None\<close> when the wait for
  the socket never returns.
\<close>

definition OpenMpvAndConnection ::
  "os \<Rightarrow> string \<Rightarrow> mpv_vars \<Rightarrow> ((string option \<times> error option) \<times> mpv_vars) option" where
  "OpenMpvAndConnection env deviceName g =
     (case mpvCommand env g of
        ((_, Some err), g1) \<Rightarrow> Some ((None, Some err), g1)
      | ((_, None), g1) \<Rightarrow>
          (let tmpSocketName = socketName env ''mpv-ctrl-'' ''.socket'' in
           case createMPVCommand env deviceName tmpSocketName g1 of
             (args, g2) \<Rightarrow>
               (case start env args of
                  Inl err \<Rightarrow> Some ((None, Some err), g2)
                | Inr exe \<Rightarrow>
                    (case waitForSocket env tmpSocketName (3 * Second) (100 * Millisecond) of
                       None \<Rightarrow> None
                     | Some (Some err) \<Rightarrow> Some ((None, Some err), g2)
                     | Some None \<Rightarrow>
                         (case connOpen env tmpSocketName of
                            Some err \<Rightarrow> Some ((None, Some err), g2)
                          | None \<Rightarrow> Some ((Some tmpSocketName, None), g2))))))"

text \<open>
  \<^verbatim>\<open>NewSpeakerPlaybackDevice\<close> returns a pointer to a device: \<open>Some pd\<close> is a pointer
  that is not \<^verbatim>\<open>nil\<close>. The outer \<open>None\<close> is a call that never returns.
\<close>

definition NewSpeakerPlaybackDevice ::
  "os \<Rightarrow> string \<Rightarrow> string \<Rightarrow> mpv_vars \<Rightarrow> (SpeakerPlaybackDevice option \<times> mpv_vars) option" where
  "NewSpeakerPlaybackDevice env name deviceName g =
     (case OpenMpvAndConnection env deviceName g of
        None \<Rightarrow> None
      | Some ((conn, err), g1) \<Rightarrow>
          Some (Some \<lparr>Name = name, DeviceName = deviceName, MpvConn = conn,
                      PlaybackQueue = NewQueue, Gain = 1\<rparr>, g1))"

subsection \<open>Reading the logs\<close>

text \<open>
  The requests of a log that are not property reads: the \<^verbatim>\<open>Set\<close> and \<^verbatim>\<open>Call\<close>
  requests, in their order.
\<close>

fun is_query :: "ipc_req \<Rightarrow> bool" where
  "is_query (MpvGet p) = True"
| "is_query _ = False"

definition commands :: "ipc_req list \<Rightarrow> ipc_req list" where
  "commands rs = filter (\<lambda>r. \<not> is_query r) rs"

text \<open>The error on which \<^verbatim>\<open>Position\<close> asks again, and its query.\<close>

definition unavailable :: "error + mpv_value" where
  "unavailable = Inl (ErrorString ''mpv error: property unavailable'')"

definition time_pos :: ipc_req where
  "time_pos = MpvGet ''time-pos''"

text \<open>What \<^verbatim>\<open>Position\<close> makes of an answer on which it does not ask again.\<close>

fun position_of :: "error + mpv_value \<Rightarrow> int" where
  "position_of (Inr (VFloat pos)) = go_int pos"
| "position_of _ = 0"

text \<open>
  Successive calls of \<^verbatim>\<open>mpvCommand\<close>, one for each element of the list, which is what
  the outside looks like at the moment of that call; the results, in order.
\<close>

fun mpvCommand_calls ::
  "os list \<Rightarrow> mpv_vars \<Rightarrow> (string \<times> error option) list \<times> mpv_vars" where
  "mpvCommand_calls [] g = ([], g)"
| "mpvCommand_calls (env # envs) g =
     (case mpvCommand env g of
        (r, g1) \<Rightarrow> (case mpvCommand_calls envs g1 of (rs, g2) \<Rightarrow> (r # rs, g2)))"

subsection \<open>Sample inputs\<close>

definition track_a :: MediaFile where
  "track_a = \<lparr>ID = ''a'', Path = ''/music/a.flac''\<rparr>"

definition track_b :: MediaFile where
  "track_b = \<lparr>ID = ''b'', Path = ''/music/b.flac''\<rparr>"

definition track_c :: MediaFile where
  "track_c = \<lparr>ID = ''c'', Path = ''/music/c.flac''\<rparr>"

text \<open>A device with the queue \<open>q\<close>, gain 1 and empty logs.\<close>

definition state_of :: "Queue \<Rightarrow> state" where
  "state_of q =
     \<lparr>dev = \<lparr>Name = ''jukebox'', DeviceName = ''auto'', MpvConn = Some ''/tmp/mpv-ctrl-0.socket'',
              PlaybackQueue = q, Gain = 1\<rparr>,
       sent = [], slept = [], lookups = []\<rparr>"

text \<open>
  A player that is paused at 12.5 seconds and accepts every request, one on which
  every request fails with the transient error, and one on which every request
  fails with another error.
\<close>

definition paused_player :: player where
  "paused_player h r =
     (if r = MpvGet ''pause'' then Inr (VBool True)
      else if r = MpvGet ''time-pos'' then Inr (VFloat (25 / 2))
      else Inr VNil)"

definition starting_player :: player where
  "starting_player h r = Inl (ErrorString ''mpv error: property unavailable'')"

definition broken_player :: player where
  "broken_player h r = Inl (ErrorString ''broken pipe'')"

text \<open>A catalog that knows the three sample tracks by their ids.\<close>

definition sample_catalog :: catalog where
  "sample_catalog i =
     (if i = ''a'' then Inr track_a
      else if i = ''b'' then Inr track_b
      else if i = ''c'' then Inr track_c
      else Inl (ErrorString ''data not found''))"

text \<open>Two choices of the queue for an index outside it: keep it, or clamp it.\<close>

definition keep_index :: "int \<Rightarrow> Queue \<Rightarrow> int" where
  "keep_index i q = i"

definition clamp_index :: "int \<Rightarrow> Queue \<Rightarrow> int" where
  "clamp_index i q = max 0 (min i (Size q - 1))"

text \<open>A choice of the cursor after a removal: leave it where it is.\<close>

definition same_cursor :: "int \<Rightarrow> Queue \<Rightarrow> int" where
  "same_cursor i q = Index q"

text \<open>
  An outside on which the player is found on the search path and starts, but its
  socket never appears; the clock advances by 100 milliseconds from one reading to
  the next.
\<close>

definition no_socket :: os where
  "no_socket =
     \<lparr>MPVPath = [],
       MPVCmdTemplate = ''mpv --audio-device=%d --no-audio-display --pause --input-ipc-server=%s'',
       LookPath = (\<lambda>p. (''/usr/bin/'' @ p, None)),
       socketName = (\<lambda>a b. ''/tmp/'' @ a @ ''0'' @ b),
       cmdStart = (\<lambda>args. None),
       Stat = (\<lambda>path k. False),
       Now = (\<lambda>k. k * (100 * Millisecond)),
       connOpen = (\<lambda>path. None)\<rparr>"

text \<open>An outside with no player anywhere.\<close>

definition no_mpv :: os where
  "no_mpv = no_socket\<lparr>LookPath := (\<lambda>p. ([], Some (ErrorString ''executable file not found in $PATH'')))\<rparr>"

text \<open>The queue of the three sample tracks, with the cursor at \<open>i\<close>.\<close>

definition sample_queue :: "int \<Rightarrow> Queue" where
  "sample_queue i = \<lparr>Items = [track_a, track_b, track_c], Index = i\<rparr>"

section \<open>Properties\<close>

subsection \<open>What the status queries leave alone\<close>

declare Position_loop.simps [simp del]

lemma Position_loop_shape:
  "\<exists>v n ms. Position_loop mpv rc s =
     (v, s\<lparr>sent := sent s @ replicate n time_pos, slept := slept s @ ms\<rparr>)"
proof (induction mpv rc s rule: Position_loop.induct)
  case (1 mpv rc s)
  have one: "s\<lparr>sent := sent s @ [MpvGet ''time-pos'']\<rparr> =
             s\<lparr>sent := sent s @ replicate 1 time_pos, slept := slept s @ []\<rparr>"
    by (simp add: time_pos_def)
  show ?case
  proof (cases "mpv (sent s) (MpvGet ''time-pos'')")
    case (Inl err)
    show ?thesis
    proof (cases "err = ErrorString ''mpv error: property unavailable'' \<and> \<not> rc + 1 > 5")
      case True
      define s1 where "s1 = Sleep (rc + 1) (s\<lparr>sent := sent s @ [MpvGet ''time-pos'']\<rparr>)"
      obtain v n ms where
        "Position_loop mpv (rc + 1) s1 =
           (v, s1\<lparr>sent := sent s1 @ replicate n time_pos, slept := slept s1 @ ms\<rparr>)"
        using "1.IH" [OF Inl] True unfolding s1_def by blast
      then have "Position_loop mpv rc s =
           (v, s\<lparr>sent := sent s @ replicate (Suc n) time_pos, slept := slept s @ (rc + 1) # ms\<rparr>)"
        using Inl True
        by (subst Position_loop.simps) (simp add: s1_def Sleep_def time_pos_def)
      then show ?thesis by blast
    next
      case False
      then have "Position_loop mpv rc s = (0, s\<lparr>sent := sent s @ [MpvGet ''time-pos'']\<rparr>)"
        using Inl by (subst Position_loop.simps) auto
      then show ?thesis unfolding one by blast
    qed
  next
    case (Inr v)
    then have "\<exists>x. Position_loop mpv rc s = (x, s\<lparr>sent := sent s @ [MpvGet ''time-pos'']\<rparr>)"
      by (subst Position_loop.simps) (auto split: mpv_value.splits)
    then show ?thesis unfolding one by blast
  qed
qed

lemma commands_append [simp]: "commands (xs @ ys) = commands xs @ commands ys"
  by (simp add: commands_def)

lemma commands_Nil [simp]: "commands [] = []"
  by (simp add: commands_def)

lemma commands_time_pos [simp]: "commands (replicate n time_pos) = []"
  by (simp add: commands_def time_pos_def)

lemma Position_frame:
  "dev (snd (Position mpv s)) = dev s"
  "lookups (snd (Position mpv s)) = lookups s"
  "commands (sent (snd (Position mpv s))) = commands (sent s)"
  using Position_loop_shape [of mpv 0 s] unfolding Position_def by auto

lemma isPlaying_frame:
  "dev (snd (isPlaying mpv s)) = dev s"
  "lookups (snd (isPlaying mpv s)) = lookups s"
  "commands (sent (snd (isPlaying mpv s))) = commands (sent s)"
  by (auto simp: isPlaying_def request_def commands_def split: sum.splits mpv_value.splits)

lemma getStatus_frame [simp]:
  "dev (snd (getStatus mpv s)) = dev s"
  "lookups (snd (getStatus mpv s)) = lookups s"
  "commands (sent (snd (getStatus mpv s))) = commands (sent s)"
  using Position_frame [of mpv "snd (isPlaying mpv s)"] isPlaying_frame [of mpv s]
  by (auto simp: getStatus_def split: prod.splits)

lemma request_frame [simp]:
  "dev (snd (request mpv r s)) = dev s"
  "lookups (snd (request mpv r s)) = lookups s"
  "sent (snd (request mpv r s)) = sent s @ [r]"
  by (simp_all add: request_def)

lemma commands_single [simp]:
  "commands [MpvCall args] = [MpvCall args]"
  "commands [MpvSet p v] = [MpvSet p v]"
  "commands [MpvGet p] = []"
  by (simp_all add: commands_def)

lemma set_queue_frame [simp]:
  "PlaybackQueue (dev (set_queue q s)) = q"
  "Gain (dev (set_queue q s)) = Gain (dev s)"
  "sent (set_queue q s) = sent s"
  "lookups (set_queue q s) = lookups s"
  by (simp_all add: set_queue_def)

subsection \<open>The position query\<close>

text \<open>
  The loop from \<open>retryCount = rc\<close>, when the player answers the next \<open>k\<close> position
  queries with the transient error: it sends \<open>k + 1\<close> queries, or \<open>6 - rc\<close> when
  that is less, and sleeps \<open>rc + 1\<close>, \<open>rc + 2\<close>, ... milliseconds between them.
\<close>

lemma Position_loop_retry:
  assumes "\<forall>j<k. mpv (sent s @ replicate j time_pos) time_pos = unavailable"
    and "rc + k \<le> 6" and "rc \<le> 5"
    and "rc + k < 6 \<longrightarrow> mpv (sent s @ replicate k time_pos) time_pos \<noteq> unavailable"
  shows "Position_loop mpv rc s =
           (if rc + k = 6 then 0 else position_of (mpv (sent s @ replicate k time_pos) time_pos),
            s\<lparr>sent := sent s @ replicate (min (k + 1) (6 - rc)) time_pos,
              slept := slept s @ [rc + 1 ..< rc + min (k + 1) (6 - rc)]\<rparr>)"
  using assms
proof (induction k arbitrary: rc s)
  case 0
  then have na: "mpv (sent s) (MpvGet ''time-pos'') \<noteq> Inl (ErrorString ''mpv error: property unavailable'')"
    by (simp add: time_pos_def unavailable_def)
  have "Position_loop mpv rc s =
          (position_of (mpv (sent s) (MpvGet ''time-pos'')), s\<lparr>sent := sent s @ [MpvGet ''time-pos'']\<rparr>)"
    using na by (subst Position_loop.simps) (auto split: sum.splits mpv_value.splits)
  then show ?case using 0 by (simp add: time_pos_def)
next
  case (Suc k)
  from Suc.prems(1) have first: "mpv (sent s) (MpvGet ''time-pos'') = Inl (ErrorString ''mpv error: property unavailable'')"
    by (auto simp: time_pos_def unavailable_def dest: spec [of _ 0])
  show ?case
  proof (cases "rc = 5")
    case True
    then have k: "k = 0" using Suc.prems(2) by simp
    have "Position_loop mpv rc s = (0, s\<lparr>sent := sent s @ [MpvGet ''time-pos'']\<rparr>)"
      using first True by (subst Position_loop.simps) simp
    then show ?thesis using True k by (simp add: time_pos_def)
  next
    case False
    then have rc: "rc < 5" using Suc.prems(3) by simp
    define s1 where "s1 = Sleep (rc + 1) (s\<lparr>sent := sent s @ [MpvGet ''time-pos'']\<rparr>)"
    have sent1: "sent s1 = sent s @ [time_pos]" and slept1: "slept s1 = slept s @ [rc + 1]"
      by (simp_all add: s1_def Sleep_def time_pos_def)
    have app: "\<And>j. sent s1 @ replicate j time_pos = sent s @ replicate (Suc j) time_pos"
      by (simp add: sent1 replicate_app_Cons_same)
    have step: "Position_loop mpv rc s = Position_loop mpv (rc + 1) s1"
      using first rc by (subst Position_loop.simps) (simp add: s1_def)
    have h1: "\<forall>j<k. mpv (sent s1 @ replicate j time_pos) time_pos = unavailable"
      using Suc.prems(1) unfolding app by auto
    have h4: "rc + 1 + k < 6 \<longrightarrow> mpv (sent s1 @ replicate k time_pos) time_pos \<noteq> unavailable"
      using Suc.prems(4) unfolding app by simp
    have IH: "Position_loop mpv (rc + 1) s1 =
           (if rc + 1 + k = 6 then 0 else position_of (mpv (sent s1 @ replicate k time_pos) time_pos),
            s1\<lparr>sent := sent s1 @ replicate (min (k + 1) (6 - (rc + 1))) time_pos,
              slept := slept s1 @ [rc + 1 + 1 ..< rc + 1 + min (k + 1) (6 - (rc + 1))]\<rparr>)"
      using Suc.IH [OF h1 _ _ h4] Suc.prems(2) rc by simp
    define m where "m = min (k + 1) (6 - (rc + 1))"
    have n: "min (Suc k + 1) (6 - rc) = Suc m"
      using rc unfolding m_def by arith
    have m: "0 < m" using rc unfolding m_def by arith
    have sl: "slept s1 @ [rc + 1 + 1 ..< rc + 1 + m] = slept s @ [rc + 1 ..< rc + Suc m]"
      using m by (simp add: slept1 upt_conv_Cons)
    have st: "s1\<lparr>sent := sent s1 @ replicate m time_pos,
              slept := slept s1 @ [rc + 1 + 1 ..< rc + 1 + m]\<rparr> =
          s\<lparr>sent := sent s @ replicate (Suc m) time_pos,
              slept := slept s @ [rc + 1 ..< rc + Suc m]\<rparr>"
      unfolding sl app by (simp add: s1_def Sleep_def)
    have v: "(if rc + 1 + k = 6 then 0
              else position_of (mpv (sent s1 @ replicate k time_pos) time_pos)) =
             (if rc + Suc k = 6 then 0
              else position_of (mpv (sent s @ replicate (Suc k) time_pos) time_pos))"
      unfolding app by simp
    show ?thesis
      using IH unfolding step n m_def [symmetric] by (simp only: st v)
  qed
qed

text \<open>
  Every player and every state is in one of the cases of \<open>k\<close>: the number of
  transient answers before the first other answer, or 6.
\<close>

lemma Position_answers_split:
  "\<exists>k\<le>6. (\<forall>j<k. mpv (sent s @ replicate j time_pos) time_pos = unavailable) \<and>
          (k < 6 \<longrightarrow> mpv (sent s @ replicate k time_pos) time_pos \<noteq> unavailable)"
proof (cases "\<forall>j<6. mpv (sent s @ replicate j time_pos) time_pos = unavailable")
  case True
  then show ?thesis by (intro exI [of _ 6]) simp
next
  case False
  let ?other = "\<lambda>j. mpv (sent s @ replicate j time_pos) time_pos \<noteq> unavailable"
  from False obtain j where j: "j < 6" "?other j" by auto
  define k where "k = (LEAST j. ?other j)"
  have "?other k" unfolding k_def using j(2) by (rule LeastI)
  moreover have "k \<le> j" unfolding k_def using j(2) by (rule Least_le)
  moreover have "\<forall>i<k. \<not> ?other i" unfolding k_def using not_less_Least by blast
  ultimately show ?thesis using j(1) by (intro exI [of _ k]) auto
qed

text \<open>
  C8. \<^verbatim>\<open>Position\<close> asks for \<^verbatim>\<open>time-pos\<close> again as long as the player answers with the
  error "mpv error: property unavailable", at most five times more, and sleeps 1, 2,
  3, 4, 5 milliseconds before the retries. With \<open>k\<close> such answers at the start: when
  \<open>k = 6\<close> (the first query and the five retries all failed so) it returns 0 after
  six queries; otherwise it returns what the answer number \<open>k\<close> gives, which is 0
  for every error, so that no error reaches the caller.
\<close>

theorem Position_retries_five_times_then_zero:
  assumes "k \<le> 6"
    and "\<forall>j<k. mpv (sent s @ replicate j time_pos) time_pos = unavailable"
    and "k < 6 \<longrightarrow> mpv (sent s @ replicate k time_pos) time_pos \<noteq> unavailable"
  shows "Position mpv s =
           (if k = 6 then 0 else position_of (mpv (sent s @ replicate k time_pos) time_pos),
            s\<lparr>sent := sent s @ replicate (min (k + 1) 6) time_pos,
              slept := slept s @ [1 ..< min (k + 1) 6]\<rparr>)
         \<and> (\<forall>err. position_of (Inl err) = 0)"
  using Position_loop_retry [of k mpv s 0] assms by (simp add: Position_def)

theorem Position_retries_five_times_then_zero_witness:
  "Position starting_player (state_of (sample_queue 0)) =
     (0, (state_of (sample_queue 0))
           \<lparr>sent := replicate 6 (MpvGet ''time-pos''), slept := [1, 2, 3, 4, 5]\<rparr>) \<and>
   Position broken_player (state_of (sample_queue 0)) =
     (0, (state_of (sample_queue 0))\<lparr>sent := [MpvGet ''time-pos'']\<rparr>) \<and>
   Position paused_player (state_of (sample_queue 0)) =
     (12, (state_of (sample_queue 0))\<lparr>sent := [MpvGet ''time-pos'']\<rparr>)"
proof -
  have "[1 ..< 6] = [1, 2, 3, 4, 5::nat]"
    by (simp add: upt_rec)
  moreover have "go_int (25 / 2) = 12"
    by (simp add: go_int_def) linarith
  ultimately show ?thesis
    using Position_retries_five_times_then_zero [of 6 starting_player "state_of (sample_queue 0)"]
      Position_retries_five_times_then_zero [of 0 broken_player "state_of (sample_queue 0)"]
      Position_retries_five_times_then_zero [of 0 paused_player "state_of (sample_queue 0)"]
    by (simp add: starting_player_def broken_player_def paused_player_def unavailable_def
        time_pos_def state_of_def)
qed

subsection \<open>Skip\<close>

lemma switch_empty:
  "Items (PlaybackQueue (dev s)) = [] \<Longrightarrow>
   fst (switchActiveTrackByIndex outside mpv index offset s) =
     Some (ErrorString ''could not get current track'')"
  by (simp add: switchActiveTrackByIndex_def Let_def Current_def SetIndex_def Size_def)

text \<open>
  C10. \<^verbatim>\<open>Skip\<close> returns a \<^verbatim>\<open>nil\<close> error for every index and every offset. On an
  empty queue the switch of track fails with "could not get current track" for
  every index, and \<^verbatim>\<open>Skip\<close> returns \<^verbatim>\<open>nil\<close> there too: the error is dropped.
\<close>

theorem Skip_error_is_nil:
  "snd (fst (Skip outside mpv index offset s)) = None \<and>
   (Items (PlaybackQueue (dev s)) = [] \<longrightarrow>
      fst (switchActiveTrackByIndex outside mpv index offset s) =
        Some (ErrorString ''could not get current track''))"
  by (simp add: Skip_def Let_def switch_empty split: prod.splits)

theorem Skip_error_is_nil_witness:
  "Items (PlaybackQueue (dev (state_of NewQueue))) = [] \<and>
   7 \<noteq> Index (PlaybackQueue (dev (state_of NewQueue))) \<and>
   fst (switchActiveTrackByIndex keep_index paused_player 7 0 (state_of NewQueue)) =
     Some (ErrorString ''could not get current track'') \<and>
   snd (fst (Skip keep_index paused_player 7 0 (state_of NewQueue))) = None"
  using Skip_error_is_nil [of keep_index paused_player 7 0 "state_of NewQueue"]
  by (simp add: state_of_def NewQueue_def)

text \<open>
  C5. \<^verbatim>\<open>Skip\<close> to the index the queue is at sends one command, the seek by the
  offset, and no file load; the status queries that follow are property reads. The
  device, and with it the queue's tracks, their order and the index, is as before.
\<close>

theorem Skip_current_index_seeks_only:
  "dev (snd (Skip outside mpv (Index (PlaybackQueue (dev s))) offset s)) = dev s \<and>
   commands (sent (snd (Skip outside mpv (Index (PlaybackQueue (dev s))) offset s))) =
     commands (sent s) @ [MpvCall [AString ''seek'', AInt offset]]"
  by (simp add: Skip_def Let_def split: prod.splits)
     (metis getStatus_frame(1,3) request_frame(1,3) commands_append commands_single(1) snd_conv)

theorem Skip_current_index_seeks_only_witness:
  "PlaybackQueue (dev (snd (Skip keep_index paused_player 2 5 (state_of (sample_queue 2))))) =
     sample_queue 2 \<and>
   commands (sent (snd (Skip keep_index paused_player 2 5 (state_of (sample_queue 2))))) =
     [MpvCall [AString ''seek'', AInt 5]]"
  using Skip_current_index_seeks_only [of keep_index paused_player "state_of (sample_queue 2)" 5]
  by (simp add: state_of_def sample_queue_def commands_def)

text \<open>
  C4, as the code has it. For an index inside the queue and different from the
  current one, \<^verbatim>\<open>Skip\<close> sets the index to it, keeps the tracks, and sends one command:
  the load of the path of the track at that index, with \<^verbatim>\<open>replace\<close>, \<^verbatim>\<open>0\<close> and
  \<^verbatim>\<open>start=10\<close>. The offset plays no part: the call does what it does with offset 0.
\<close>

theorem Skip_other_index_loads_track:
  assumes "index \<noteq> Index (PlaybackQueue (dev s))"
    and "0 \<le> index" and "index < Size (PlaybackQueue (dev s))"
  shows "Index (PlaybackQueue (dev (snd (Skip outside mpv index offset s)))) = index \<and>
    Items (PlaybackQueue (dev (snd (Skip outside mpv index offset s)))) =
      Items (PlaybackQueue (dev s)) \<and>
    commands (sent (snd (Skip outside mpv index offset s))) =
      commands (sent s) @
      [MpvCall [AString ''loadfile'', AString (Path (Items (PlaybackQueue (dev s)) ! nat index)),
                AString ''replace'', AInt 0, AString ''start=10'']] \<and>
    Skip outside mpv index offset s = Skip outside mpv index 0 s"
proof -
  let ?q = "PlaybackQueue (dev s)"
  let ?load = "MpvCall [AString ''loadfile'', AString (Path (Items ?q ! nat index)),
                        AString ''replace'', AInt 0, AString ''start=10'']"
  have cur: "Current (SetIndex outside index ?q) = Some (Items ?q ! nat index)"
    using assms by (simp add: Current_def SetIndex_def Size_def)
  define s1 where "s1 = snd (switchActiveTrackByIndex outside mpv index offset s)"
  have s1: "s1 = snd (request mpv ?load (set_queue (SetIndex outside index ?q) s))"
    using cur by (simp add: s1_def switchActiveTrackByIndex_def Let_def)
  have sk: "snd (Skip outside mpv index offset s) = snd (getStatus mpv s1)"
    using assms(1) by (simp add: Skip_def s1_def split: prod.splits)
  have "Index (PlaybackQueue (dev (snd (Skip outside mpv index offset s)))) = index"
    using assms unfolding sk by (simp add: s1 SetIndex_def)
  moreover have "Items (PlaybackQueue (dev (snd (Skip outside mpv index offset s)))) = Items ?q"
    using assms unfolding sk by (simp add: s1 SetIndex_def)
  moreover have "commands (sent (snd (Skip outside mpv index offset s))) =
      commands (sent s) @ [?load]"
    unfolding sk by (simp add: s1)
  moreover have "Skip outside mpv index offset s = Skip outside mpv index 0 s"
    using assms(1) by (simp add: Skip_def switchActiveTrackByIndex_def)
  ultimately show ?thesis by blast
qed

theorem Skip_other_index_loads_track_witness:
  "Index (PlaybackQueue (dev (snd (Skip clamp_index paused_player 2 0 (state_of (sample_queue 0)))))) = 2 \<and>
   commands (sent (snd (Skip clamp_index paused_player 2 0 (state_of (sample_queue 0))))) =
     [MpvCall [AString ''loadfile'', AString ''/music/c.flac'',
               AString ''replace'', AInt 0, AString ''start=10'']] \<and>
   Skip clamp_index paused_player 2 30 (state_of (sample_queue 0)) =
     Skip clamp_index paused_player 2 0 (state_of (sample_queue 0))"
  using Skip_other_index_loads_track [of 2 "state_of (sample_queue 0)" clamp_index paused_player 0]
    Skip_other_index_loads_track [of 2 "state_of (sample_queue 0)" clamp_index paused_player 30]
  by (simp add: state_of_def sample_queue_def Size_def track_c_def commands_def)

text \<open>
  C4 as stated fails where the queue has no track for the index. On the empty
  queue, whose index is \<open>-1\<close>, \<^verbatim>\<open>Skip\<close> to index 0 sends no command at all, whatever
  the queue does with an index outside it.
\<close>

theorem Skip_empty_queue_loads_nothing:
  "0 \<noteq> Index (PlaybackQueue (dev (state_of NewQueue))) \<and>
   commands (sent (snd (Skip keep_index paused_player 0 0 (state_of NewQueue)))) = [] \<and>
   commands (sent (snd (Skip clamp_index paused_player 0 0 (state_of NewQueue)))) = []"
  by (simp add: Skip_def Let_def switchActiveTrackByIndex_def Current_def SetIndex_def Size_def
      keep_index_def clamp_index_def state_of_def NewQueue_def set_queue_def split_beta)

subsection \<open>Remove\<close>

lemma Stop_frame [simp]:
  "snd (fst (Stop mpv s)) = None"
  "dev (snd (Stop mpv s)) = dev s"
  "lookups (snd (Stop mpv s)) = lookups s"
  "commands (sent (snd (Stop mpv s))) = commands (sent s) @ [MpvSet ''pause'' (ABool True)]"
  by (simp_all add: Stop_def split_beta)

lemma isPlaying_frame_simps [simp]:
  "dev (snd (isPlaying mpv s)) = dev s"
  "lookups (snd (isPlaying mpv s)) = lookups s"
  by (rule isPlaying_frame)+

lemma Remove_nil: "snd (fst (Remove cursor mpv index s)) = None"
  by (simp add: Remove_def Let_def split_beta split: option.splits)

lemma Remove_queue:
  "PlaybackQueue (dev (snd (Remove cursor mpv index s))) =
     (case Queue_Remove cursor index (PlaybackQueue (dev s)) of
        None \<Rightarrow> PlaybackQueue (dev s)
      | Some q \<Rightarrow> q)"
  by (simp add: Remove_def Let_def split_beta Queue_Remove_def split: option.splits)

text \<open>
  C2, as the code has it. \<^verbatim>\<open>Remove\<close> with an index inside the queue takes exactly the
  element at that index out and keeps the others in their order. With an index
  outside the queue it leaves the queue as it is. The error it returns is \<^verbatim>\<open>nil\<close>
  in both cases: the code writes an index out of range to the log and returns no
  error for it.
\<close>

theorem Remove_takes_one_out_or_only_logs:
  "snd (fst (Remove cursor mpv index s)) = None \<and>
   (0 \<le> index \<and> index < Size (PlaybackQueue (dev s)) \<longrightarrow>
      Items (PlaybackQueue (dev (snd (Remove cursor mpv index s)))) =
        take (nat index) (Items (PlaybackQueue (dev s))) @
        drop (nat index + 1) (Items (PlaybackQueue (dev s))) \<and>
      length (Items (PlaybackQueue (dev (snd (Remove cursor mpv index s))))) + 1 =
        length (Items (PlaybackQueue (dev s)))) \<and>
   (\<not> (0 \<le> index \<and> index < Size (PlaybackQueue (dev s))) \<longrightarrow>
      PlaybackQueue (dev (snd (Remove cursor mpv index s))) = PlaybackQueue (dev s))"
  unfolding Remove_queue Remove_nil
  by (auto simp: Queue_Remove_def Size_def)

theorem Remove_takes_one_out_or_only_logs_witness:
  "Items (PlaybackQueue (dev (snd (Remove same_cursor paused_player 1 (state_of (sample_queue 0))))))
     = [track_a, track_c] \<and>
   PlaybackQueue (dev (snd (Remove same_cursor paused_player 3 (state_of (sample_queue 0)))))
     = sample_queue 0"
  using Remove_takes_one_out_or_only_logs [of same_cursor paused_player 1 "state_of (sample_queue 0)"]
    Remove_takes_one_out_or_only_logs [of same_cursor paused_player 3 "state_of (sample_queue 0)"]
  by (simp add: state_of_def sample_queue_def Size_def)

text \<open>
  C2 as stated asks for an index-range error. \<^verbatim>\<open>Remove\<close> of index 3 on a queue of
  three tracks returns \<^verbatim>\<open>nil\<close>.
\<close>

theorem Remove_out_of_range_returns_nil:
  "\<not> (3 < Size (PlaybackQueue (dev (state_of (sample_queue 0))))) \<and>
   snd (fst (Remove same_cursor paused_player 3 (state_of (sample_queue 0)))) = None"
  by (simp add: Remove_nil state_of_def sample_queue_def Size_def)

subsection \<open>Add and Set\<close>

lemma Add_loop_ok:
  "map srv ids = map Inr tracks \<Longrightarrow>
   Add_loop srv ids items s = (Inr (items @ tracks), s\<lparr>lookups := lookups s @ ids\<rparr>)"
proof (induction ids arbitrary: tracks items s)
  case Nil
  then show ?case by simp
next
  case (Cons i ids)
  then obtain t ts where "tracks = t # ts" "srv i = Inr t" "map srv ids = map Inr ts"
    by (cases tracks) auto
  then show ?case using Cons.IH [of ts "items @ [t]"] by simp
qed

lemma Add_loop_fail:
  "\<forall>j\<in>set pre. \<not> isl (srv j) \<Longrightarrow> srv i = Inl err \<Longrightarrow>
   Add_loop srv (pre @ i # rest) items s = (Inl err, s\<lparr>lookups := lookups s @ pre @ [i]\<rparr>)"
proof (induction pre arbitrary: items s)
  case Nil
  then show ?case by simp
next
  case (Cons j pre)
  then obtain t where "srv j = Inr t" by (cases "srv j") auto
  then show ?case using Cons by simp
qed

text \<open>
  C6. When every id resolves (to \<open>tracks\<close>, in the order of the ids), \<^verbatim>\<open>Add\<close> looks
  the ids up in order, returns no error, and the queue is the old one followed by
  the \<open>length ids\<close> tracks in that order. When the id \<open>i\<close> is the first that does
  not resolve, \<^verbatim>\<open>Add\<close> returns the catalog's error after the lookup of \<open>i\<close>: the ids
  after it are not looked up, nothing is sent to the player, and the device, with
  its queue, is as before.
\<close>

theorem Add_appends_all_or_nothing:
  "(map srv ids = map Inr tracks \<longrightarrow>
      snd (fst (Add srv mpv ids s)) = None \<and>
      Items (PlaybackQueue (dev (snd (Add srv mpv ids s)))) =
        Items (PlaybackQueue (dev s)) @ tracks \<and>
      length (Items (PlaybackQueue (dev (snd (Add srv mpv ids s))))) =
        length (Items (PlaybackQueue (dev s))) + length ids \<and>
      lookups (snd (Add srv mpv ids s)) = lookups s @ ids) \<and>
   ((\<forall>j\<in>set pre. \<not> isl (srv j)) \<and> srv i = Inl err \<longrightarrow>
      Add srv mpv (pre @ i # rest) s =
        ((DeviceStatus_zero, Some err), s\<lparr>lookups := lookups s @ pre @ [i]\<rparr>))"
proof (intro conjI impI)
  assume ok: "map srv ids = map Inr tracks"
  then have len: "length tracks = length ids"
    by (metis length_map)
  show "snd (fst (Add srv mpv ids s)) = None"
    by (simp add: Add_def Add_loop_ok [OF ok] split_beta)
  show items: "Items (PlaybackQueue (dev (snd (Add srv mpv ids s)))) =
        Items (PlaybackQueue (dev s)) @ tracks"
    using len by (auto simp: Add_def Add_loop_ok [OF ok] split_beta Queue_Add_def)
  show "length (Items (PlaybackQueue (dev (snd (Add srv mpv ids s))))) =
        length (Items (PlaybackQueue (dev s))) + length ids"
    unfolding items using len by simp
  show "lookups (snd (Add srv mpv ids s)) = lookups s @ ids"
    using len by (simp add: Add_def Add_loop_ok [OF ok] split_beta)
next
  assume "(\<forall>j\<in>set pre. \<not> isl (srv j)) \<and> srv i = Inl err"
  then show "Add srv mpv (pre @ i # rest) s =
        ((DeviceStatus_zero, Some err), s\<lparr>lookups := lookups s @ pre @ [i]\<rparr>)"
    by (simp add: Add_def Add_loop_fail)
qed


theorem Add_appends_all_or_nothing_witness:
  "Items (PlaybackQueue (dev (snd (Add sample_catalog paused_player [''c'', ''a''] (state_of (sample_queue 0))))))
     = [track_a, track_b, track_c, track_c, track_a] \<and>
   Add sample_catalog paused_player [''b'', ''x'', ''c''] (state_of (sample_queue 0)) =
     ((DeviceStatus_zero, Some (ErrorString ''data not found'')),
      (state_of (sample_queue 0))\<lparr>lookups := [''b'', ''x'']\<rparr>)"
  using Add_appends_all_or_nothing [of sample_catalog "[''c'', ''a'']" "[track_c, track_a]"
      paused_player "state_of (sample_queue 0)" "[]" "[]" "ErrorString []" "[]"]
    Add_appends_all_or_nothing [of sample_catalog "[]" "[]"
      paused_player "state_of (sample_queue 0)" "[''b'']" "''x''" "ErrorString ''data not found''" "[''c'']"]
  by (simp add: sample_catalog_def state_of_def sample_queue_def)

lemma Clear_frame [simp]:
  "snd (fst (Clear mpv s)) = None"
  "PlaybackQueue (dev (snd (Clear mpv s))) = \<lparr>Items = [], Index = -1\<rparr>"
  "lookups (snd (Clear mpv s)) = lookups s"
  by (simp_all add: Clear_def Let_def split_beta Queue_Clear_def)

lemma Set_Clear_Add: "Set srv mpv ids s = Add srv mpv ids (snd (Clear mpv s))"
proof -
  obtain st s1 where c: "Clear mpv s = ((st, None), s1)"
    using Clear_frame(1) [of mpv s] by (metis prod.collapse)
  then show ?thesis by (simp add: Set_def)
qed

text \<open>
  C7. \<^verbatim>\<open>Set\<close> is \<^verbatim>\<open>Add\<close> run after \<^verbatim>\<open>Clear\<close>. When every id resolves, it returns
  no error and, whatever the queue was, the queue is the tracks of the ids in order,
  with the index at the start: 0, or \<open>-1\<close>, the index of an empty queue, when there
  are no ids.
\<close>

theorem Set_replaces_queue:
  "Set srv mpv ids s = Add srv mpv ids (snd (Clear mpv s)) \<and>
   (map srv ids = map Inr tracks \<longrightarrow>
      snd (fst (Set srv mpv ids s)) = None \<and>
      PlaybackQueue (dev (snd (Set srv mpv ids s))) =
        \<lparr>Items = tracks, Index = (if tracks = [] then -1 else 0)\<rparr>)"
proof (intro conjI impI)
  show "Set srv mpv ids s = Add srv mpv ids (snd (Clear mpv s))"
    by (rule Set_Clear_Add)
next
  assume ok: "map srv ids = map Inr tracks"
  then have len: "length tracks = length ids"
    by (metis length_map)
  show "snd (fst (Set srv mpv ids s)) = None"
    unfolding Set_Clear_Add by (simp add: Add_def Add_loop_ok [OF ok] split_beta)
  show "PlaybackQueue (dev (snd (Set srv mpv ids s))) =
        \<lparr>Items = tracks, Index = (if tracks = [] then -1 else 0)\<rparr>"
    unfolding Set_Clear_Add using len
    by (auto simp: Add_def Add_loop_ok [OF ok] split_beta Queue_Add_def)
qed

theorem Set_replaces_queue_witness:
  "PlaybackQueue (dev (snd (Set sample_catalog paused_player [''c'', ''b''] (state_of (sample_queue 2)))))
     = \<lparr>Items = [track_c, track_b], Index = 0\<rparr> \<and>
   PlaybackQueue (dev (snd (Set sample_catalog paused_player [] (state_of (sample_queue 2)))))
     = \<lparr>Items = [], Index = -1\<rparr>"
proof -
  have two: "map sample_catalog [''c'', ''b''] = map Inr [track_c, track_b]"
    by (simp add: sample_catalog_def)
  have none: "map sample_catalog [] = map Inr []"
    by simp
  from two none show ?thesis
    using Set_replaces_queue [of sample_catalog paused_player "[''c'', ''b'']"
        "state_of (sample_queue 2)" "[track_c, track_b]", THEN conjunct2]
      Set_replaces_queue [of sample_catalog paused_player "[]"
        "state_of (sample_queue 2)" "[]", THEN conjunct2]
    by simp
qed

subsection \<open>SetGain\<close>

text \<open>\<open>ilog2\<close> is the binary exponent: \<open>2 ^ ilog2 x \<le> x < 2 ^ (ilog2 x + 1)\<close>.\<close>

lemma ilog2_bounds:
  assumes "0 < x"
  shows "2 powi (ilog2 x) \<le> x \<and> x < 2 powi (ilog2 x + 1)"
proof (cases "1 \<le> x")
  case True
  define n where "n = nat \<lfloor>x\<rfloor>"
  define k where "k = floorlog 2 n"
  have n: "0 < n" using True by (simp add: n_def)
  have b: "2 ^ (k - 1) \<le> n \<and> n < 2 ^ k"
    unfolding k_def using floorlog_bounds [of n 2] n by simp
  have k: "0 < k"
    using b n by (cases k) auto
  have nx: "of_nat n \<le> x" "x < of_nat n + 1"
    using True by (simp_all add: n_def) linarith+
  have e: "ilog2 x = int (k - 1)"
    using True k by (simp add: ilog2_def n_def k_def)
  have "(2::rat) ^ (k - 1) \<le> of_nat n"
    using b by (metis of_nat_le_iff of_nat_numeral of_nat_power)
  then have lo: "(2::rat) ^ (k - 1) \<le> x" using nx by linarith
  have "n + 1 \<le> 2 ^ k" using b by simp
  then have "(of_nat (n + 1) :: rat) \<le> 2 ^ k"
    by (metis of_nat_le_iff of_nat_numeral of_nat_power)
  then have hi: "x < 2 ^ k" using nx by simp
  have "ilog2 x + 1 = int k" using k unfolding e by simp
  then have "(2::rat) powi (ilog2 x + 1) = 2 ^ k"
    by (simp only: power_int_of_nat)
  moreover have "(2::rat) powi (ilog2 x) = 2 ^ (k - 1)"
    by (simp only: e power_int_of_nat)
  ultimately show ?thesis
    using lo hi by simp
next
  case False
  define m where "m = \<lceil>1 / x\<rceil>"
  define k where "k = floorlog 2 (nat (m - 1))"
  have y: "1 < 1 / x" using False assms by simp
  then have m: "2 \<le> m" unfolding m_def by (simp add: le_ceiling_iff)
  have my: "of_int m - 1 < 1 / x" "1 / x \<le> of_int m"
    unfolding m_def by (simp_all add: ceiling_correct)
  have b: "2 ^ (k - 1) \<le> nat (m - 1) \<and> nat (m - 1) < 2 ^ k"
    unfolding k_def using floorlog_bounds [of "nat (m - 1)" 2] m by simp
  have k: "0 < k"
    using b m by (cases k) auto
  have e: "ilog2 x = - int k"
    using False by (simp add: ilog2_def m_def k_def)
  have "m - 1 < int (2 ^ k)"
    using b m by (simp only: nat_less_iff)
  then have "m \<le> 2 ^ k" by simp
  then have "(of_int m :: rat) \<le> 2 ^ k"
    by (metis of_int_le_iff of_int_numeral of_int_power)
  then have "1 / x \<le> 2 ^ k" using my by linarith
  then have lo: "1 / 2 ^ k \<le> x"
    using assms by (simp add: field_simps)
  have "int (2 ^ (k - 1)) \<le> m - 1"
    using b m by (simp only: le_nat_iff)
  then have "(2::int) ^ (k - 1) \<le> m - 1" by simp
  then have "(2::rat) ^ (k - 1) \<le> of_int (m - 1)"
    by (metis of_int_le_iff of_int_numeral of_int_power)
  then have "(2::rat) ^ (k - 1) < 1 / x" using my by simp
  then have hi: "x < 1 / 2 ^ (k - 1)"
    using assms by (simp add: field_simps)
  have "ilog2 x + 1 = - int (k - 1)" using k unfolding e by simp
  then have "(2::rat) powi (ilog2 x + 1) = 1 / 2 ^ (k - 1)"
    by (simp only: power_int_minus power_int_of_nat inverse_eq_divide)
  moreover have "(2::rat) powi (ilog2 x) = 1 / 2 ^ k"
    by (simp only: e power_int_minus power_int_of_nat inverse_eq_divide)
  ultimately show ?thesis
    using lo hi by simp
qed

lemma round_even_bounds: "\<lfloor>y\<rfloor> \<le> round_even y \<and> round_even y \<le> \<lceil>y\<rceil>"
proof -
  have "y - of_int \<lfloor>y\<rfloor> = 0 \<or> \<lceil>y\<rceil> = \<lfloor>y\<rfloor> + 1"
    by (metis ceiling_altdef eq_iff_diff_eq_0)
  moreover have "\<lfloor>y\<rfloor> \<le> \<lceil>y\<rceil>"
    by (rule floor_le_ceiling)
  ultimately show ?thesis
    by (auto simp: round_even_def Let_def)
qed

lemma ulp_pos: "0 < (2::rat) powi n"
  by (simp add: zero_less_power_int)

lemma f32_nonneg: "0 \<le> x \<Longrightarrow> 0 \<le> f32 x"
proof -
  assume x: "0 \<le> x"
  have "0 \<le> round_even (x / 2 powi n)" for n
  proof -
    have "0 \<le> x / 2 powi n"
      using x ulp_pos [of n] by simp
    then have "0 \<le> \<lfloor>x / 2 powi n\<rfloor>" by simp
    then show ?thesis
      using round_even_bounds [of "x / 2 powi n"] by linarith
  qed
  then show ?thesis
    using ulp_pos by (simp add: f32_def Let_def less_imp_le)
qed

lemma ilog2_le_6: "x \<le> 100 \<Longrightarrow> ilog2 x \<le> 6"
proof (cases "1 \<le> x")
  case True
  assume "x \<le> 100"
  then have "nat \<lfloor>x\<rfloor> \<le> 100"
    by (simp add: floor_le_iff nat_le_iff)
  then have "floorlog 2 (nat \<lfloor>x\<rfloor>) \<le> floorlog 2 100"
    by (rule floorlog_mono)
  moreover have "floorlog 2 100 = 7"
    by code_simp
  ultimately show ?thesis using True by (simp add: ilog2_def)
next
  case False
  then show ?thesis by (simp add: ilog2_def)
qed

lemma f32_le_100:
  assumes "0 \<le> x" and "x \<le> 100"
  shows "f32 x \<le> 100"
proof (cases "x = 0")
  case True
  then show ?thesis by (simp add: f32_def)
next
  case False
  define e where "e = max (ilog2 \<bar>x\<bar>) (- 126)"
  define ulp :: rat where "ulp = 2 powi (e - 23)"
  have e: "e \<le> 6"
    using ilog2_le_6 [of x] assms by (simp add: e_def)
  have ulp: "0 < ulp" unfolding ulp_def by (rule ulp_pos)
  define N :: int where "N = 100 * 2 ^ nat (23 - e)"
  have "(2::rat) powi (23 - e) * 2 powi (e - 23) = 1"
    by (simp flip: power_int_add)
  moreover have "(2::rat) powi (23 - e) = 2 ^ nat (23 - e)"
    using e by (simp add: power_int_def)
  ultimately have N: "of_int N * ulp = 100"
    by (simp add: N_def ulp_def)
  have "x / ulp \<le> of_int N"
    using assms(2) ulp N by (simp add: pos_divide_le_eq)
  then have "\<lceil>x / ulp\<rceil> \<le> N"
    by (simp add: ceiling_le_iff)
  then have "round_even (x / ulp) \<le> N"
    using round_even_bounds [of "x / ulp"] by linarith
  then have "of_int (round_even (x / ulp)) * ulp \<le> of_int N * ulp"
    using ulp by (simp add: mult_le_cancel_right)
  then have "of_int (round_even (x / ulp)) * ulp \<le> 100"
    unfolding N .
  moreover have "f32 x = of_int (round_even (x / ulp)) * ulp"
    using False by (simp add: f32_def Let_def ulp_def e_def)
  ultimately show ?thesis by simp
qed

lemma go_int_trunc:
  "0 \<le> x \<Longrightarrow> of_int (go_int x) \<le> x \<and> x < of_int (go_int x) + 1"
  by (simp add: go_int_def) linarith

lemma volume_range:
  assumes "0 \<le> g" and "g \<le> 1"
  shows "0 \<le> go_int (f32 (g * 100)) \<and> go_int (f32 (g * 100)) \<le> 100"
proof -
  have "0 \<le> f32 (g * 100)"
    using assms(1) by (simp add: f32_nonneg)
  moreover have "f32 (g * 100) \<le> 100"
    using assms by (simp add: f32_le_100)
  ultimately show ?thesis
    by (simp add: go_int_def floor_le_iff le_floor_iff) 
qed

lemma getStatus_gain [simp]: "StatusGain (fst (getStatus mpv s)) = Gain (dev s)"
  by (simp add: getStatus_def split_beta)

lemma SetGain_effect:
  "snd (fst (SetGain mpv g s)) = None"
  "Gain (dev (snd (SetGain mpv g s))) = g"
  "StatusGain (fst (fst (SetGain mpv g s))) = g"
  "PlaybackQueue (dev (snd (SetGain mpv g s))) = PlaybackQueue (dev s)"
  "commands (sent (snd (SetGain mpv g s))) =
     commands (sent s) @ [MpvSet ''volume'' (AInt (go_int (f32 (g * 100))))]"
  by (simp_all add: SetGain_def Let_def split_beta)

text \<open>
  C3, as the code has it. \<^verbatim>\<open>SetGain\<close> sends one command, the set of \<^verbatim>\<open>volume\<close> to
  the \<^verbatim>\<open>float32\<close> product \<open>g * 100\<close> with its fraction cut off (not rounded), and
  makes \<open>g\<close> the gain of the device and of the status it returns, with a \<^verbatim>\<open>nil\<close>
  error, whatever the player answers to the set. For \<open>g\<close> in \<open>[0, 1]\<close> the volume
  \<open>v\<close> is in \<open>[0, 100]\<close> and \<open>v \<le> g * 100 < v + 1\<close> for the \<^verbatim>\<open>float32\<close> product.
\<close>

theorem SetGain_truncates_and_keeps_gain:
  "snd (fst (SetGain mpv g s)) = None \<and>
   Gain (dev (snd (SetGain mpv g s))) = g \<and>
   StatusGain (fst (fst (SetGain mpv g s))) = g \<and>
   commands (sent (snd (SetGain mpv g s))) =
     commands (sent s) @ [MpvSet ''volume'' (AInt (go_int (f32 (g * 100))))] \<and>
   (0 \<le> g \<and> g \<le> 1 \<longrightarrow>
      0 \<le> go_int (f32 (g * 100)) \<and> go_int (f32 (g * 100)) \<le> 100 \<and>
      of_int (go_int (f32 (g * 100))) \<le> f32 (g * 100) \<and>
      f32 (g * 100) < of_int (go_int (f32 (g * 100))) + 1)"
  using volume_range [of g] go_int_trunc [of "f32 (g * 100)"] f32_nonneg [of "g * 100"]
  by (simp add: SetGain_effect)

theorem SetGain_truncates_and_keeps_gain_witness:
  "Gain (dev (snd (SetGain broken_player (1 / 2) (state_of (sample_queue 0))))) = 1 / 2 \<and>
   commands (sent (snd (SetGain broken_player (1 / 2) (state_of (sample_queue 0))))) =
     [MpvSet ''volume'' (AInt 50)]"
proof -
  have "go_int (f32 (1 / 2 * 100)) = 50"
    by code_simp
  then show ?thesis
    using SetGain_truncates_and_keeps_gain [of broken_player "1 / 2" "state_of (sample_queue 0)"]
    by (simp add: state_of_def)
qed

text \<open>
  C3 as stated asks for \<open>round (g * 100)\<close>. The gain \<open>3 / 16\<close> is a \<^verbatim>\<open>float32\<close>, and
  so is its product with 100, \<open>18.75\<close>: the volume sent is 18, and the rounded
  product is 19.
\<close>

theorem SetGain_does_not_round:
  "commands (sent (snd (SetGain paused_player (3 / 16) (state_of (sample_queue 0))))) =
     [MpvSet ''volume'' (AInt 18)] \<and>
   round ((3 / 16 :: rat) * 100) = 19"
proof -
  have "go_int (f32 (3 / 16 * 100)) = 18"
    by code_simp
  moreover have "round ((3 / 16 :: rat) * 100) = 19"
    by code_simp
  ultimately show ?thesis
    by (simp add: SetGain_effect state_of_def)
qed

subsection \<open>Looking the player up\<close>

lemma mpvCommand_cached:
  "mpvOnce g \<Longrightarrow> mpvCommand env g = ((mpvPath g, mpvErr g), g)"
  by (simp add: mpvCommand_def)

lemma mpvCommand_once [simp]: "mpvOnce (snd (mpvCommand env g))"
  by (simp add: mpvCommand_def Let_def)

lemma mpvCommand_result:
  "fst (mpvCommand env g) = (mpvPath (snd (mpvCommand env g)), mpvErr (snd (mpvCommand env g)))"
  by (simp add: mpvCommand_def Let_def)

lemma mpvCommand_calls_cached:
  "mpvOnce g \<Longrightarrow>
   mpvCommand_calls envs g = (replicate (length envs) (mpvPath g, mpvErr g), g)"
  by (induction envs) (simp_all add: mpvCommand_cached)

text \<open>
  C9. The first call of \<^verbatim>\<open>mpvCommand\<close> (the one that finds \<open>mpvOnce\<close> unset) looks
  the player up: the configured path when there is one; otherwise the name
  \<^verbatim>\<open>mpv\<close> on the search path and, when that fails with \<^verbatim>\<open>exec.ErrDot\<close>,
  \<^verbatim>\<open>./mpv\<close>. It returns the path and the error of that lookup. Every later call,
  whatever the outside is by then, returns the same path and error and leaves the
  variables as they are: it looks nothing up, and an error stays.
\<close>

theorem mpvCommand_resolves_once:
  assumes "\<not> mpvOnce g"
  shows "fst (mpvCommand env g) =
           (if MPVPath env \<noteq> [] then LookPath env (MPVPath env)
            else if (case snd (LookPath env ''mpv'') of None \<Rightarrow> False | Some err \<Rightarrow> is_ErrDot err)
                 then LookPath env ''./mpv''
                 else LookPath env ''mpv'') \<and>
         looked (snd (mpvCommand env g)) = looked g @
           (if MPVPath env \<noteq> [] then [MPVPath env]
            else if (case snd (LookPath env ''mpv'') of None \<Rightarrow> False | Some err \<Rightarrow> is_ErrDot err)
                 then [''mpv'', ''./mpv'']
                 else [''mpv'']) \<and>
         mpvCommand_calls envs (snd (mpvCommand env g)) =
           (replicate (length envs) (fst (mpvCommand env g)), snd (mpvCommand env g))"
proof (intro conjI)
  show "mpvCommand_calls envs (snd (mpvCommand env g)) =
           (replicate (length envs) (fst (mpvCommand env g)), snd (mpvCommand env g))"
    by (simp add: mpvCommand_calls_cached mpvCommand_result [symmetric])
qed (use assms in \<open>auto simp: mpvCommand_def mpvLookup_def Let_def split: prod.splits option.splits\<close>)

theorem mpvCommand_resolves_once_witness:
  "\<not> mpvOnce mpv_vars_init \<and>
   fst (mpvCommand no_mpv mpv_vars_init) =
     ([], Some (ErrorString ''executable file not found in $PATH'')) \<and>
   looked (snd (mpvCommand no_mpv mpv_vars_init)) = [''mpv''] \<and>
   mpvCommand_calls [no_socket, no_socket] (snd (mpvCommand no_mpv mpv_vars_init)) =
     ([([], Some (ErrorString ''executable file not found in $PATH'')),
       ([], Some (ErrorString ''executable file not found in $PATH''))],
      snd (mpvCommand no_mpv mpv_vars_init))"
  using mpvCommand_resolves_once [of mpv_vars_init no_mpv "[no_socket, no_socket]"]
  by (simp add: mpv_vars_init_def no_mpv_def no_socket_def)

subsection \<open>Waiting for the socket\<close>

lemma waitForSocket_loop_timeout:
  assumes "end < Now env (Suc n)" and "\<forall>k\<le>n. \<not> Stat env path k" and "j \<le> n"
  shows "waitForSocket_loop env path end timeout j = Some (Some (TimeoutReached timeout))"
  using assms(3)
proof (induction "n - j" arbitrary: j)
  case 0
  then have "j = n" by simp
  then show ?case
    using assms(1,2) by (subst waitForSocket_loop.simps) simp
next
  case (Suc d)
  then have "d = n - (j + 1)" and "j + 1 \<le> n" by simp_all
  then have "waitForSocket_loop env path end timeout (j + 1) =
               Some (Some (TimeoutReached timeout))"
    by (rule Suc.hyps(1))
  then show ?case
    using assms(2) Suc.prems by (subst waitForSocket_loop.simps) simp
qed

lemma createMPVCommand_vars:
  "mpvOnce g \<Longrightarrow> snd (createMPVCommand env deviceName sock g) = g"
  by (simp add: createMPVCommand_def fixCmd_def mpvCommand_cached)

lemma OpenMpvAndConnection_timeout:
  assumes "snd (fst (mpvCommand env g)) = None"
    and "cmdStart env (fst (createMPVCommand env deviceName
           (socketName env ''mpv-ctrl-'' ''.socket'') (snd (mpvCommand env g)))) = None"
    and "Now env 0 + 3 * Second < Now env (Suc n)"
    and "\<forall>k\<le>n. \<not> Stat env (socketName env ''mpv-ctrl-'' ''.socket'') k"
  shows "OpenMpvAndConnection env deviceName g =
           Some ((None, Some (TimeoutReached (3 * Second))), snd (mpvCommand env g))"
proof -
  let ?sock = "socketName env ''mpv-ctrl-'' ''.socket''"
  obtain p g1 where c: "mpvCommand env g = ((p, None), g1)"
    using assms(1) by (metis prod.collapse)
  have once: "mpvOnce g1"
    using mpvCommand_once [of env g] c by simp
  obtain args where a: "createMPVCommand env deviceName ?sock g1 = (args, g1)"
    using createMPVCommand_vars [OF once, of env deviceName ?sock] by (metis prod.collapse)
  have st: "start env args = Inr args"
    using assms(2) c a by (simp add: start_def)
  have w: "waitForSocket env ?sock (3 * Second) (100 * Millisecond) =
             Some (Some (TimeoutReached (3 * Second)))"
    unfolding waitForSocket_def
    by (rule waitForSocket_loop_timeout [OF assms(3) assms(4)]) simp
  show ?thesis
    by (simp add: OpenMpvAndConnection_def c a st w)
qed

text \<open>
  C1, as the code has it. When the player is found and started, and every poll for
  its socket fails up to the first reading of the clock that is more than 3 seconds
  after the start of the wait, \<^verbatim>\<open>OpenMpvAndConnection\<close> returns no connection and the
  error "timeout reached: 3s". \<^verbatim>\<open>NewSpeakerPlaybackDevice\<close> drops that error and
  returns a device all the same, with \<^verbatim>\<open>nil\<close> for its connection, an empty queue
  and gain 1.
\<close>

theorem socket_timeout_leaves_device_without_connection:
  assumes "snd (fst (mpvCommand env g)) = None"
    and "cmdStart env (fst (createMPVCommand env deviceName
           (socketName env ''mpv-ctrl-'' ''.socket'') (snd (mpvCommand env g)))) = None"
    and "Now env 0 + 3 * Second < Now env (Suc n)"
    and "\<forall>k\<le>n. \<not> Stat env (socketName env ''mpv-ctrl-'' ''.socket'') k"
  shows "OpenMpvAndConnection env deviceName g =
           Some ((None, Some (TimeoutReached (3 * Second))), snd (mpvCommand env g)) \<and>
         NewSpeakerPlaybackDevice env name deviceName g =
           Some (Some \<lparr>Name = name, DeviceName = deviceName, MpvConn = None,
                       PlaybackQueue = NewQueue, Gain = 1\<rparr>, snd (mpvCommand env g))"
  using OpenMpvAndConnection_timeout [OF assms]
  by (simp add: NewSpeakerPlaybackDevice_def)

lemma no_socket_vars:
  "mpvCommand no_socket mpv_vars_init =
     ((''/usr/bin/mpv'', None),
      \<lparr>mpvOnce = True, mpvPath = ''/usr/bin/mpv'', mpvErr = None, looked = [''mpv'']\<rparr>)"
  by (simp add: mpvCommand_def mpvLookup_def Let_def no_socket_def mpv_vars_init_def)

lemma no_socket_late: "Now no_socket 0 + 3 * Second < Now no_socket (Suc 30)"
  by (simp add: no_socket_def Second_def Millisecond_def)

theorem socket_timeout_leaves_device_without_connection_witness:
  "OpenMpvAndConnection no_socket ''auto'' mpv_vars_init =
     Some ((None, Some (TimeoutReached 3000000000)),
           \<lparr>mpvOnce = True, mpvPath = ''/usr/bin/mpv'', mpvErr = None, looked = [''mpv'']\<rparr>)"
proof -
  have "\<forall>k\<le>30. \<not> Stat no_socket (socketName no_socket ''mpv-ctrl-'' ''.socket'') k"
    by (simp add: no_socket_def)
  moreover have "cmdStart no_socket (fst (createMPVCommand no_socket ''auto''
           (socketName no_socket ''mpv-ctrl-'' ''.socket'') (snd (mpvCommand no_socket mpv_vars_init)))) = None"
    by (simp add: no_socket_def)
  moreover have "snd (fst (mpvCommand no_socket mpv_vars_init)) = None"
    by (simp add: no_socket_vars)
  ultimately show ?thesis
    using socket_timeout_leaves_device_without_connection [of no_socket mpv_vars_init "''auto''" 30 "''jukebox''"]
      no_socket_late
    by (simp add: no_socket_vars Second_def)
qed

text \<open>
  C1 as stated has no device produced. With a socket that never appears and a clock
  that advances by 100 milliseconds a reading, \<^verbatim>\<open>NewSpeakerPlaybackDevice\<close> returns a
  device.
\<close>

theorem device_is_produced_without_socket:
  "NewSpeakerPlaybackDevice no_socket ''jukebox'' ''auto'' mpv_vars_init =
     Some (Some \<lparr>Name = ''jukebox'', DeviceName = ''auto'', MpvConn = None,
                 PlaybackQueue = NewQueue, Gain = 1\<rparr>,
           \<lparr>mpvOnce = True, mpvPath = ''/usr/bin/mpv'', mpvErr = None, looked = [''mpv'']\<rparr>)"
proof -
  have absent: "\<forall>k\<le>30. \<not> Stat no_socket (socketName no_socket ''mpv-ctrl-'' ''.socket'') k"
    by (simp add: no_socket_def)
  have started: "cmdStart no_socket (fst (createMPVCommand no_socket ''auto''
           (socketName no_socket ''mpv-ctrl-'' ''.socket'') (snd (mpvCommand no_socket mpv_vars_init)))) = None"
    by (simp add: no_socket_def)
  have found: "snd (fst (mpvCommand no_socket mpv_vars_init)) = None"
    by (simp add: no_socket_vars)
  have "OpenMpvAndConnection no_socket ''auto'' mpv_vars_init =
      Some ((None, Some (TimeoutReached (3 * Second))), snd (mpvCommand no_socket mpv_vars_init))"
    by (rule OpenMpvAndConnection_timeout [OF found started no_socket_late absent])
  then show ?thesis
    by (simp add: NewSpeakerPlaybackDevice_def no_socket_vars)
qed

end
